theory Spec2Isabelle
  imports Complex_Main "HOL-Library.Sublist"
begin

section \<open>Texts\<close>

text \<open>
  A query text is a Python \<open>str\<close>. It is modelled as a \<open>string\<close> whose characters are
  the code points 0..255 of the text (the Latin-1 range of Unicode), one \<open>char\<close> per
  code point. The three character classes below are those of Python 3 on that range:
  \<open>\d\<close> of the \<open>re\<close> module (decimal digits), \<open>\w\<close> of the \<open>re\<close> module
  (alphanumeric code points and the underscore) and \<open>str.lower\<close>.
\<close>

definition is_digit :: "char \<Rightarrow> bool" where
  "is_digit c = (let n = (of_char c :: nat) in 48 \<le> n \<and> n \<le> 57)"

definition is_word :: "char \<Rightarrow> bool" where
  "is_word c =
     (let n = (of_char c :: nat) in
        (48 \<le> n \<and> n \<le> 57) \<or> (65 \<le> n \<and> n \<le> 90) \<or> n = 95 \<or> (97 \<le> n \<and> n \<le> 122) \<or>
        n = 170 \<or> n = 178 \<or> n = 179 \<or> n = 181 \<or> n = 185 \<or> n = 186 \<or>
        n = 188 \<or> n = 189 \<or> n = 190 \<or>
        (192 \<le> n \<and> n \<le> 214) \<or> (216 \<le> n \<and> n \<le> 246) \<or> 248 \<le> n)"

definition lower_char :: "char \<Rightarrow> char" where
  "lower_char c =
     (let n = (of_char c :: nat) in
        if (65 \<le> n \<and> n \<le> 90) \<or> (192 \<le> n \<and> n \<le> 222 \<and> n \<noteq> 215)
        then char_of (n + 32) else c)"

definition lower :: "string \<Rightarrow> string" where
  "lower s = map lower_char s"

text \<open>Python's \<open>sub in s\<close> on strings: \<open>sub\<close> occurs in \<open>s\<close> as a contiguous run.\<close>

fun py_in :: "string \<Rightarrow> string \<Rightarrow> bool" where
  "py_in sub [] = (sub = [])"
| "py_in sub (c # cs) = (prefix sub (c # cs) \<or> py_in sub cs)"

text \<open>
  The regular expression \<open>\b\<close> holds at a position when exactly one of the character
  before it and the character after it is a word character; the start and the end of
  the text count as non-word. \<open>prev_word\<close> says whether the character before the
  position is a word character, \<open>rest\<close> is the text from the position on.
\<close>

definition at_boundary :: "bool \<Rightarrow> string \<Rightarrow> bool" where
  "at_boundary prev_word rest =
     (prev_word \<noteq> (case rest of [] \<Rightarrow> False | c # _ \<Rightarrow> is_word c))"

text \<open>
  \<open>re.search(r"\bw\b", text)\<close> for a non-empty literal word \<open>w\<close>: some position of the
  text has a boundary, then \<open>w\<close>, then a boundary.
\<close>

fun search_word_from :: "string \<Rightarrow> bool \<Rightarrow> string \<Rightarrow> bool" where
  "search_word_from w prev_word [] = False"
| "search_word_from w prev_word (c # cs) =
     ((at_boundary prev_word (c # cs) \<and> prefix w (c # cs) \<and>
       at_boundary (is_word (last w)) (drop (length w) (c # cs)))
      \<or> search_word_from w (is_word c) cs)"

definition re_search_word :: "string \<Rightarrow> string \<Rightarrow> bool" where
  "re_search_word w text = search_word_from w False text"

text \<open>
  One attempt of \<open>\b\d{1,3}\b\<close> at a position. The quantifier is greedy: three digits
  are tried first, then two, then one, and the first count after which \<open>\b\<close> holds wins.
\<close>

definition match_age_at :: "bool \<Rightarrow> string \<Rightarrow> string option" where
  "match_age_at prev_word s =
     (if \<not> at_boundary prev_word s then None
      else case filter (\<lambda>k. k \<le> length s \<and> list_all is_digit (take k s) \<and>
                             at_boundary True (drop k s)) [3, 2, 1] of
             [] \<Rightarrow> None
           | k # _ \<Rightarrow> Some (take k s))"

text \<open>
  \<open>re.findall(r'\b\d{1,3}\b', text)\<close>: the matches from left to right, without overlap;
  after a match the scan goes on behind it, otherwise at the next character.
\<close>

function findall_from :: "bool \<Rightarrow> string \<Rightarrow> string list" where
  "findall_from prev_word [] = []"
| "findall_from prev_word (c # cs) =
     (case match_age_at prev_word (c # cs) of
        Some m \<Rightarrow> m # findall_from True (drop (length m) (c # cs))
      | None \<Rightarrow> findall_from (is_word c) cs)"
  by pat_completeness auto
termination
  by (relation "measure (\<lambda>(pw, s). length s)")
     (auto simp: match_age_at_def split: if_splits list.splits)

definition findall_age :: "string \<Rightarrow> string list" where
  "findall_age text = findall_from False text"

text \<open>\<open>int(s)\<close> on a string of decimal digits.\<close>

definition digit_val :: "char \<Rightarrow> int" where
  "digit_val c = int (of_char c) - 48"

definition py_int :: "string \<Rightarrow> int" where
  "py_int s = foldl (\<lambda>a c. 10 * a + digit_val c) 0 s"

text \<open>\<open>str(i)\<close> on an integer, as the f-strings of the explanation format it.\<close>

definition digit_char :: "nat \<Rightarrow> char" where
  "digit_char d = char_of (48 + d)"

function str_nat :: "nat \<Rightarrow> string" where
  "str_nat n = (if n < 10 then [digit_char n] else str_nat (n div 10) @ [digit_char (n mod 10)])"
  by pat_completeness auto
termination
  by (relation "measure id") auto

declare str_nat.simps [simp del]

definition str_int :: "int \<Rightarrow> string" where
  "str_int i = (if i < 0 then CHR ''-'' # str_nat (nat (- i)) else str_nat (nat i))"

text \<open>\<open>sep.join(parts)\<close>.\<close>

fun join :: "string \<Rightarrow> string list \<Rightarrow> string" where
  "join sep [] = []"
| "join sep [x] = x"
| "join sep (x # y # ys) = x @ sep @ join sep (y # ys)"

section \<open>The query interpreter (nlp_processor.py)\<close>

text \<open>
  The age filter is a dictionary with the optional keys \<open>min_age\<close> and \<open>max_age\<close>;
  a key that is absent is \<open>None\<close> here. The dictionary is falsy when it has no key.
\<close>

record age_filter =
  min_age :: "int option"
  max_age :: "int option"

definition empty_age_filter :: age_filter where
  "empty_age_filter = \<lparr>min_age = None, max_age = None\<rparr>"

definition truthy_age_filter :: "age_filter \<Rightarrow> bool" where
  "truthy_age_filter f = (min_age f \<noteq> None \<or> max_age f \<noteq> None)"

text \<open>The search parameters that \<open>process_query\<close> builds and \<open>generate_response\<close> reads.\<close>

record params =
  conditions :: "string list"
  age_filter :: age_filter
  gender :: "string option"
  limit :: int
  query_type :: string

text \<open>\<open>self.conditions\<close>: condition key and its surface forms, in declaration order.\<close>

definition nlp_conditions :: "(string \<times> string list) list" where
  "nlp_conditions =
     [(''diabetes'', [''diabetes'', ''diabetic'', ''dm'', ''type 1'', ''type 2'']),
      (''hypertension'', [''hypertension'', ''high blood pressure'', ''hbp'', ''hypertensive'']),
      (''asthma'', [''asthma'', ''asthmatic'', ''respiratory'']),
      (''heart disease'', [''heart disease'', ''cardiac'', ''coronary'', ''heart condition'',
                           ''cardiovascular'']),
      (''cancer'', [''cancer'', ''oncology'', ''tumor'', ''malignant'', ''carcinoma'']),
      (''copd'', [''copd'', ''chronic obstructive'', ''emphysema'']),
      (''stroke'', [''stroke'', ''cerebrovascular'', ''cva''])]"

text \<open>
  \<open>self.gender_patterns\<close>, in declaration order. Every pattern of the source is
  \<open>\bw\b\<close> for a literal word \<open>w\<close>; the table holds the words.
\<close>

definition gender_patterns :: "(string \<times> string list) list" where
  "gender_patterns =
     [(''female'', [''female'', ''women'', ''woman'', ''feminine'']),
      (''male'', [''male'', ''men'', ''man'', ''masculine''])]"

definition extract_age_filter :: "string \<Rightarrow> age_filter" where
  "extract_age_filter text =
     (let text_lower = lower text;
          age_numbers = findall_age text
      in if py_in ''over'' text_lower \<or> py_in ''above'' text_lower \<or>
            py_in ''older than'' text_lower
         then (if age_numbers \<noteq> []
               then \<lparr>min_age = Some (py_int (age_numbers ! 0)), max_age = None\<rparr>
               else empty_age_filter)
         else if py_in ''under'' text_lower \<or> py_in ''below'' text_lower \<or>
                 py_in ''younger than'' text_lower
         then (if age_numbers \<noteq> []
               then \<lparr>min_age = None, max_age = Some (py_int (age_numbers ! 0))\<rparr>
               else empty_age_filter)
         else if py_in ''between'' text_lower \<and> 2 \<le> length age_numbers
         then \<lparr>min_age = Some (py_int (age_numbers ! 0)),
               max_age = Some (py_int (age_numbers ! 1))\<rparr>
         else empty_age_filter)"

text \<open>
  The two nested loops of \<open>extract_gender\<close> return the first category, in table order,
  one of whose patterns is found.
\<close>

fun first_gender :: "(string \<times> string list) list \<Rightarrow> string \<Rightarrow> string option" where
  "first_gender [] text_lower = None"
| "first_gender ((g, patterns) # rest) text_lower =
     (if list_ex (\<lambda>pattern. re_search_word pattern text_lower) patterns then Some g
      else first_gender rest text_lower)"

definition extract_gender :: "string \<Rightarrow> string option" where
  "extract_gender text = first_gender gender_patterns (lower text)"

definition extract_conditions :: "string \<Rightarrow> string list" where
  "extract_conditions text =
     (let text_lower = lower text
      in map fst (filter (\<lambda>(condition, patterns).
                            list_ex (\<lambda>pattern. py_in pattern text_lower) patterns)
                         nlp_conditions))"

definition explanation_of :: "string list \<Rightarrow> string option \<Rightarrow> age_filter \<Rightarrow> string" where
  "explanation_of conds g af =
     (let parts =
            (if conds \<noteq> [] then [''Searching for patients with: '' @ join '', '' conds] else []) @
            (case g of None \<Rightarrow> [] | Some gs \<Rightarrow> if gs \<noteq> [] then [''Gender: '' @ gs] else []) @
            (case (min_age af, max_age af) of
               (Some lo, Some hi) \<Rightarrow> [''Age between '' @ str_int lo @ '' and '' @ str_int hi]
             | (Some lo, None) \<Rightarrow> [''Age over '' @ str_int lo]
             | (None, Some hi) \<Rightarrow> [''Age under '' @ str_int hi]
             | (None, None) \<Rightarrow> [])
      in if parts \<noteq> [] then join ''; '' parts else ''General patient search'')"

definition process_query :: "string \<Rightarrow> params \<times> string" where
  "process_query query_text =
     (let conds = extract_conditions query_text;
          af = extract_age_filter query_text;
          g = extract_gender query_text
      in (\<lparr>conditions = conds, age_filter = af, gender = g, limit = 10,
            query_type = ''patient_search''\<rparr>,
          explanation_of conds g af))"

section \<open>Errors and the random source (fhir_simulator.py)\<close>

text \<open>
  The exceptions the simulator can raise. A computation that may raise returns
  \<open>Inl\<close> of the exception, otherwise \<open>Inr\<close> of its value.
\<close>

datatype error = ValueError | IndexError | KeyError

definition bind_result :: "error + 'a \<Rightarrow> ('a \<Rightarrow> error + 'b) \<Rightarrow> error + 'b" where
  "bind_result m f = (case m of Inl e \<Rightarrow> Inl e | Inr v \<Rightarrow> f v)"

text \<open>
  The random source is the sequence of raw draws that the generators of the \<open>random\<close>
  and \<open>uuid\<close> modules will deliver; each call consumes one draw and hands the rest on.
  A source that is used up delivers 0. One call of the program makes finitely many
  draws, so every run is the run on some such list.
\<close>

type_synonym rng = "nat list"

definition next_rand :: "rng \<Rightarrow> nat \<times> rng" where
  "next_rand r = (case r of [] \<Rightarrow> (0, []) | x # xs \<Rightarrow> (x, xs))"

text \<open>\<open>random.randint(a, b)\<close>: a value of \<open>[a, b]\<close>; ValueError when the range is empty.\<close>

definition randint :: "int \<Rightarrow> int \<Rightarrow> rng \<Rightarrow> error + (int \<times> rng)" where
  "randint a b r =
     (if b < a then Inl ValueError
      else case next_rand r of (x, r') \<Rightarrow> Inr (a + int x mod (b - a + 1), r'))"

text \<open>\<open>random.choice(seq)\<close>: an element of \<open>seq\<close>; IndexError when it is empty.\<close>

definition choice :: "'a list \<Rightarrow> rng \<Rightarrow> error + ('a \<times> rng)" where
  "choice xs r =
     (if xs = [] then Inl IndexError
      else case next_rand r of (x, r') \<Rightarrow> Inr (xs ! (x mod length xs), r'))"

text \<open>
  \<open>random.random()\<close>: a value of \<open>[0, 1)\<close>, here in thousandths, so that
  \<open>random.random() < 0.3\<close> is \<open>u < 300\<close>.
\<close>

definition random_unit :: "rng \<Rightarrow> nat \<times> rng" where
  "random_unit r = (case next_rand r of (x, r') \<Rightarrow> (x mod 1000, r'))"

text \<open>
  \<open>random.sample(population, k)\<close>: \<open>k\<close> elements at distinct positions; ValueError
  when \<open>k\<close> exceeds the population. The selected position is filled with the last
  element of the shrinking pool, as the library does for a population of at most 21
  elements.
\<close>

fun sample_loop :: "'a list \<Rightarrow> nat \<Rightarrow> rng \<Rightarrow> 'a list \<times> rng" where
  "sample_loop pool 0 r = ([], r)"
| "sample_loop pool (Suc k) r =
     (if pool = [] then ([], r)
      else case next_rand r of (x, r1) \<Rightarrow>
        (let j = x mod length pool in
         case sample_loop (butlast (pool[j := last pool])) k r1 of
           (ys, r2) \<Rightarrow> (pool ! j # ys, r2)))"

definition sample :: "'a list \<Rightarrow> nat \<Rightarrow> rng \<Rightarrow> error + ('a list \<times> rng)" where
  "sample population k r =
     (if length population < k then Inl ValueError else Inr (sample_loop population k r))"

text \<open>\<open>uuid.uuid4().hex[:8]\<close>: eight lower-case hexadecimal digits.\<close>

definition hex_digit :: "nat \<Rightarrow> char" where
  "hex_digit d = ''0123456789abcdef'' ! (d mod 16)"

definition uuid_hex8 :: "rng \<Rightarrow> string \<times> rng" where
  "uuid_hex8 r =
     (case next_rand r of (x, r') \<Rightarrow>
        (map (\<lambda>d. hex_digit (x div d))
           [268435456, 16777216, 1048576, 65536, 4096, 256, 16, 1], r'))"

section \<open>The vocabularies of the simulator\<close>

record coding =
  coding_code :: string
  coding_display :: string
  coding_system :: string

record address =
  addr_street :: string
  addr_city :: string
  addr_state :: string
  addr_zip :: string

definition first_names :: "(string \<times> string list) list" where
  "first_names =
     [(''male'', [''James'', ''Robert'', ''John'', ''Michael'', ''David'', ''William'',
                  ''Richard'', ''Joseph'', ''Thomas'', ''Christopher'']),
      (''female'', [''Mary'', ''Patricia'', ''Jennifer'', ''Linda'', ''Elizabeth'', ''Barbara'',
                    ''Susan'', ''Jessica'', ''Sarah'', ''Karen''])]"

definition last_names :: "string list" where
  "last_names =
     [''Smith'', ''Johnson'', ''Williams'', ''Brown'', ''Jones'', ''Garcia'', ''Miller'',
      ''Davis'', ''Rodriguez'', ''Martinez'', ''Hernandez'', ''Lopez'', ''Gonzalez'',
      ''Wilson'', ''Anderson'', ''Thomas'', ''Taylor'', ''Moore'', ''Jackson'', ''Martin'']"

definition icd10 :: string where
  "icd10 = ''http://hl7.org/fhir/sid/icd-10-cm''"

definition condition_codes :: "(string \<times> coding) list" where
  "condition_codes =
     [(''diabetes'', \<lparr>coding_code = ''E11.9'',
         coding_display = ''Type 2 diabetes mellitus without complications'',
         coding_system = icd10\<rparr>),
      (''hypertension'', \<lparr>coding_code = ''I10'',
         coding_display = ''Essential hypertension'', coding_system = icd10\<rparr>),
      (''asthma'', \<lparr>coding_code = ''J45.9'',
         coding_display = ''Asthma, unspecified'', coding_system = icd10\<rparr>),
      (''heart disease'', \<lparr>coding_code = ''I25.9'',
         coding_display = ''Chronic ischemic heart disease, unspecified'',
         coding_system = icd10\<rparr>),
      (''cancer'', \<lparr>coding_code = ''C80.1'',
         coding_display = ''Malignant neoplasm, unspecified'', coding_system = icd10\<rparr>)]"

text \<open>The coding that \<open>generate_condition\<close> uses for a key outside the catalog.\<close>

definition unknown_condition_code :: coding where
  "unknown_condition_code =
     \<lparr>coding_code = ''R06.9'',
      coding_display = ''Unspecified abnormalities of breathing'',
      coding_system = icd10\<rparr>"

definition addresses :: "address list" where
  "addresses =
     [\<lparr>addr_street = ''123 Main St'', addr_city = ''Boston'', addr_state = ''MA'',
       addr_zip = ''02101''\<rparr>,
      \<lparr>addr_street = ''456 Oak Ave'', addr_city = ''New York'', addr_state = ''NY'',
       addr_zip = ''10001''\<rparr>,
      \<lparr>addr_street = ''789 Pine Rd'', addr_city = ''Chicago'', addr_state = ''IL'',
       addr_zip = ''60601''\<rparr>,
      \<lparr>addr_street = ''321 Elm St'', addr_city = ''Los Angeles'', addr_state = ''CA'',
       addr_zip = ''90001''\<rparr>,
      \<lparr>addr_street = ''654 Maple Dr'', addr_city = ''Houston'', addr_state = ''TX'',
       addr_zip = ''77001''\<rparr>]"

section \<open>Records of the simulator\<close>

text \<open>
  The Patient and Condition resources carry the fields that the simulator computes from
  its arguments and from the random source. Constant fields (\<open>active\<close>, the clinical
  status and category codings, \<open>versionId\<close>) and the renderings of the wall clock
  (\<open>lastUpdated\<close>, \<open>birthDate\<close>, the onset timestamps) are not read by any operation
  of the simulator; of the latter the record keeps the number the date is computed
  from: the age, and the days between onset and now. The clock itself is not part of
  the model: the dates \<open>now - age * 365.25 days\<close> and \<open>now - days\<close> are taken to
  exist, which they do for every age from 0 to 999 (the ages the interpreter can ask
  for), every onset of at most 1825 days and every clock from the year 1001 on.
\<close>

record patient =
  pt_id :: string
  pt_family :: string
  pt_given :: string
  pt_gender :: string
  pt_address :: address
  pt_phone :: string
  pt_email :: string
  pt_age :: int
  pt_display_name :: string
  pt_conditions :: "string list"

record condition =
  cond_id :: string
  cond_coding :: coding
  cond_text :: string
  cond_subject_reference :: string
  cond_subject_display :: string
  cond_onset_days_ago :: int

datatype resource = Patient patient | Condition condition

record entry =
  fullUrl :: string
  entry_resource :: resource
  search_mode :: string

record fhir_bundle =
  bundle_id :: string
  bundle_type :: string
  bundle_total :: nat
  bundle_entry :: "entry list"

section \<open>Operations of the simulator\<close>

definition generate_patient_id :: "rng \<Rightarrow> string \<times> rng" where
  "generate_patient_id r = (case uuid_hex8 r of (h, r') \<Rightarrow> (''patient-'' @ h, r'))"

text \<open>\<open>d[k]\<close> on a dictionary: KeyError when the key is absent.\<close>

definition lookup :: "('k \<times> 'v) list \<Rightarrow> 'k \<Rightarrow> error + 'v" where
  "lookup d k = (case map_of d k of None \<Rightarrow> Inl KeyError | Some v \<Rightarrow> Inr v)"

text \<open>
  \<open>generate_patient(gender, age_range, conditions)\<close>; each argument may be \<open>None\<close>.
  The draws are made in the order of the source: gender, age, first name, last name,
  address, id, the three groups of the phone number.
\<close>

definition generate_patient ::
  "string option \<Rightarrow> age_filter option \<Rightarrow> string list option \<Rightarrow> rng \<Rightarrow> error + (patient \<times> rng)"
where
  "generate_patient gender_arg age_range conditions_arg r =
     bind_result
       (case gender_arg of
          None \<Rightarrow> choice [''male'', ''female''] r
        | Some g \<Rightarrow> if g = [] then choice [''male'', ''female''] r else Inr (g, r))
       (\<lambda>(g, r1).
     bind_result
       (case age_range of
          None \<Rightarrow> randint 18 85 r1
        | Some af \<Rightarrow>
            if truthy_age_filter af
            then randint (case min_age af of None \<Rightarrow> 18 | Some lo \<Rightarrow> lo)
                         (case max_age af of None \<Rightarrow> 85 | Some hi \<Rightarrow> hi) r1
            else randint 18 85 r1)
       (\<lambda>(age, r2).
     bind_result (lookup first_names g) (\<lambda>names.
     bind_result (choice names r2) (\<lambda>(first_name, r3).
     bind_result (choice last_names r3) (\<lambda>(last_name, r4).
     bind_result (choice addresses r4) (\<lambda>(addr, r5).
     case generate_patient_id r5 of (patient_id, r6) \<Rightarrow>
     bind_result (randint 100 999 r6) (\<lambda>(ph1, r7).
     bind_result (randint 100 999 r7) (\<lambda>(ph2, r8).
     bind_result (randint 1000 9999 r8) (\<lambda>(ph3, r9).
       Inr (\<lparr>pt_id = patient_id,
             pt_family = last_name,
             pt_given = first_name,
             pt_gender = g,
             pt_address = addr,
             pt_phone = ''('' @ str_int ph1 @ '') '' @ str_int ph2 @ ''-'' @ str_int ph3,
             pt_email = lower first_name @ ''.'' @ lower last_name @ ''@email.com'',
             pt_age = age,
             pt_display_name = first_name @ '' '' @ last_name,
             pt_conditions = (case conditions_arg of None \<Rightarrow> [] | Some cs \<Rightarrow> cs)\<rparr>,
            r9))))))))))"

definition generate_condition :: "string \<Rightarrow> string \<Rightarrow> rng \<Rightarrow> error + (condition \<times> rng)" where
  "generate_condition patient_id condition_name r =
     (let condition_code =
            (case map_of condition_codes condition_name of
               None \<Rightarrow> unknown_condition_code
             | Some c \<Rightarrow> c)
      in bind_result (randint 30 1825 r) (\<lambda>(days, r1).
         case uuid_hex8 r1 of (h, r2) \<Rightarrow>
           Inr (\<lparr>cond_id = ''condition-'' @ h,
                 cond_coding = \<lparr>coding_code = coding_code condition_code,
                                 coding_display = coding_display condition_code,
                                 coding_system = coding_system condition_code\<rparr>,
                 cond_text = coding_display condition_code,
                 cond_subject_reference = ''Patient/'' @ patient_id,
                 cond_subject_display = ''Patient '' @ patient_id,
                 cond_onset_days_ago = days\<rparr>,
                r2)))"

text \<open>
  \<open>filter_patients\<close>: the gender filter applies when \<open>params.get("gender")\<close> is truthy,
  each age bound when its key is present, the condition filter when the list of
  requested conditions is not empty.
\<close>

definition filter_patients :: "patient list \<Rightarrow> params \<Rightarrow> patient list" where
  "filter_patients patients ps =
     (let by_gender =
            (case gender ps of
               None \<Rightarrow> patients
             | Some g \<Rightarrow> if g = [] then patients else filter (\<lambda>p. pt_gender p = g) patients);
          by_min =
            (case min_age (age_filter ps) of
               None \<Rightarrow> by_gender
             | Some lo \<Rightarrow> filter (\<lambda>p. lo \<le> pt_age p) by_gender);
          by_max =
            (case max_age (age_filter ps) of
               None \<Rightarrow> by_min
             | Some hi \<Rightarrow> filter (\<lambda>p. pt_age p \<le> hi) by_min)
      in if conditions ps = [] then by_max
         else filter (\<lambda>p. list_ex (\<lambda>cond. cond \<in> set (pt_conditions p)) (conditions ps)) by_max)"

text \<open>
  The condition keys one pool member gets (lines 254 to 265 of generate_response): with
  requested conditions, one of them when the first draw is below 0.3, otherwise up to
  two of them when a second draw is below 0.1; without, one key of the catalog when
  the draw is below 0.4.
\<close>

definition assign_conditions :: "string list \<Rightarrow> rng \<Rightarrow> error + (string list \<times> rng)" where
  "assign_conditions conditions_requested r =
     (if conditions_requested \<noteq> []
      then (case random_unit r of (u, r1) \<Rightarrow>
              if u < 300
              then bind_result (choice conditions_requested r1) (\<lambda>(c, r2). Inr ([c], r2))
              else (case random_unit r1 of (v, r2) \<Rightarrow>
                      if v < 100
                      then sample conditions_requested (min 2 (length conditions_requested)) r2
                      else Inr ([], r2)))
      else (case random_unit r of (u, r1) \<Rightarrow>
              if u < 400
              then bind_result (choice (map fst condition_codes) r1) (\<lambda>(c, r2). Inr ([c], r2))
              else Inr ([], r1)))"

text \<open>The loop that fills the pool: \<open>n\<close> iterations, each appending one patient.\<close>

fun generate_pool :: "nat \<Rightarrow> params \<Rightarrow> rng \<Rightarrow> error + (patient list \<times> rng)" where
  "generate_pool 0 ps r = Inr ([], r)"
| "generate_pool (Suc n) ps r =
     bind_result (assign_conditions (conditions ps) r) (\<lambda>(patient_conditions, r1).
     bind_result (generate_patient (gender ps) (Some (age_filter ps)) (Some patient_conditions) r1)
       (\<lambda>(p, r2).
     bind_result (generate_pool n ps r2) (\<lambda>(pool, r3). Inr (p # pool, r3))))"

text \<open>\<open>xs[:limit]\<close>: a negative limit counts from the end.\<close>

definition slice_to :: "'a list \<Rightarrow> int \<Rightarrow> 'a list" where
  "slice_to xs k =
     (if 0 \<le> k then take (nat k) xs else take (length xs - nat (- k)) xs)"

text \<open>The two nested loops that synthesize the conditions of the matching patients.\<close>

fun conditions_of_patient :: "string \<Rightarrow> string list \<Rightarrow> rng \<Rightarrow> error + (condition list \<times> rng)" where
  "conditions_of_patient patient_id [] r = Inr ([], r)"
| "conditions_of_patient patient_id (condition_name # rest) r =
     bind_result (generate_condition patient_id condition_name r) (\<lambda>(c, r1).
     bind_result (conditions_of_patient patient_id rest r1) (\<lambda>(cs, r2). Inr (c # cs, r2)))"

fun conditions_of_patients :: "patient list \<Rightarrow> rng \<Rightarrow> error + (condition list \<times> rng)" where
  "conditions_of_patients [] r = Inr ([], r)"
| "conditions_of_patients (p # rest) r =
     bind_result (conditions_of_patient (pt_id p) (pt_conditions p) r) (\<lambda>(cs, r1).
     bind_result (conditions_of_patients rest r1) (\<lambda>(ds, r2). Inr (cs @ ds, r2)))"

definition patient_entry :: "patient \<Rightarrow> entry" where
  "patient_entry p =
     \<lparr>fullUrl = ''http://example.org/fhir/Patient/'' @ pt_id p,
      entry_resource = Patient p,
      search_mode = ''match''\<rparr>"

definition condition_entry :: "condition \<Rightarrow> entry" where
  "condition_entry c =
     \<lparr>fullUrl = ''http://example.org/fhir/Condition/'' @ cond_id c,
      entry_resource = Condition c,
      search_mode = ''include''\<rparr>"

text \<open>
  Lines 274 to 316 of generate_response: from the pool to the bundle (filter, limit,
  conditions of the matching patients, patient entries, then condition entries).
\<close>

definition bundle_of_pool :: "patient list \<Rightarrow> params \<Rightarrow> rng \<Rightarrow> error + (fhir_bundle \<times> rng)" where
  "bundle_of_pool patient_pool ps r =
     (let matching_patients = slice_to (filter_patients patient_pool ps) (limit ps)
      in bind_result (conditions_of_patients matching_patients r) (\<lambda>(all_conditions, r1).
         case uuid_hex8 r1 of (h, r2) \<Rightarrow>
           Inr (\<lparr>bundle_id = ''bundle-'' @ h,
                 bundle_type = ''searchset'',
                 bundle_total = length matching_patients,
                 bundle_entry = map patient_entry matching_patients @
                                map condition_entry all_conditions\<rparr>,
                r2)))"

definition generate_response :: "params \<Rightarrow> rng \<Rightarrow> error + (fhir_bundle \<times> rng)" where
  "generate_response ps r =
     bind_result (randint 20 50 r) (\<lambda>(total_patients, r1).
     bind_result (generate_pool (nat total_patients) ps r1) (\<lambda>(patient_pool, r2).
     bundle_of_pool patient_pool ps r2))"

section \<open>Summary statistics\<close>

record statistics =
  total_patients :: nat
  total_conditions :: nat
  age_distribution :: "(string \<times> nat) list"
  gender_distribution :: "(string \<times> nat) list"
  condition_distribution :: "(string \<times> nat) list"
  average_age :: rat

text \<open>The Patient resources and the Condition resources of a bundle, in entry order.\<close>

fun bundle_patients :: "entry list \<Rightarrow> patient list" where
  "bundle_patients [] = []"
| "bundle_patients (e # es) =
     (case entry_resource e of
        Patient p \<Rightarrow> p # bundle_patients es
      | Condition c \<Rightarrow> bundle_patients es)"

fun bundle_conditions :: "entry list \<Rightarrow> condition list" where
  "bundle_conditions [] = []"
| "bundle_conditions (e # es) =
     (case entry_resource e of
        Patient p \<Rightarrow> bundle_conditions es
      | Condition c \<Rightarrow> c # bundle_conditions es)"

text \<open>\<open>d[k] = d.get(k, 0) + 1\<close> on a dictionary that keeps insertion order.\<close>

fun bump :: "string \<Rightarrow> (string \<times> nat) list \<Rightarrow> (string \<times> nat) list" where
  "bump k [] = [(k, 1)]"
| "bump k ((k', n) # d) = (if k = k' then (k', n + 1) # d else (k', n) # bump k d)"

text \<open>
  \<open>average_age\<close> is the exact quotient; the source computes it in floating point,
  which rounds it to the nearest double.
\<close>

definition get_summary_statistics :: "fhir_bundle \<Rightarrow> statistics" where
  "get_summary_statistics fhir_response =
     (let patients = bundle_patients (bundle_entry fhir_response);
          conds = bundle_conditions (bundle_entry fhir_response);
          ages = map pt_age patients
      in \<lparr>total_patients = length patients,
          total_conditions = length conds,
          age_distribution =
            [(''18-30'', length (filter (\<lambda>a. 18 \<le> a \<and> a \<le> 30) ages)),
             (''31-50'', length (filter (\<lambda>a. 31 \<le> a \<and> a \<le> 50) ages)),
             (''51-70'', length (filter (\<lambda>a. 51 \<le> a \<and> a \<le> 70) ages)),
             (''71+'', length (filter (\<lambda>a. 70 < a) ages))],
          gender_distribution =
            [(''male'', length (filter (\<lambda>p. pt_gender p = ''male'') patients)),
             (''female'', length (filter (\<lambda>p. pt_gender p = ''female'') patients))],
          condition_distribution = foldl (\<lambda>d c. bump (cond_text c) d) [] conds,
          average_age =
            (if ages = [] then 0 else of_int (sum_list ages) / of_nat (length ages))\<rparr>)"


section \<open>Facts about texts\<close>

lemma py_in_sublist: "py_in sub s = sublist sub s"
  by (induction s) (simp_all add: sublist_Cons_right)

lemma py_in_lower: "py_in sub s \<Longrightarrow> py_in (lower sub) (lower s)"
  unfolding py_in_sublist lower_def sublist_def by (metis map_append)

lemma lower_over: "lower ''over'' = ''over''"
  by (simp add: lower_def lower_char_def)

lemma match_age_at_digits:
  "match_age_at pw s = Some m \<Longrightarrow> 1 \<le> length m \<and> length m \<le> 3 \<and> list_all is_digit m"
  by (auto simp: match_age_at_def split: if_splits list.splits)

lemma findall_from_digits:
  "m \<in> set (findall_from pw s) \<Longrightarrow> 1 \<le> length m \<and> length m \<le> 3 \<and> list_all is_digit m"
proof (induction pw s rule: findall_from.induct)
  case (1 pw)
  then show ?case by simp
next
  case (2 pw c cs)
  show ?case
  proof (cases "match_age_at pw (c # cs)")
    case None
    with 2 show ?thesis by simp
  next
    case (Some k)
    with 2 show ?thesis
      using match_age_at_digits [OF Some] by auto
  qed
qed

lemma digit_val_range: "is_digit c \<Longrightarrow> 0 \<le> digit_val c \<and> digit_val c \<le> 9"
  by (auto simp: is_digit_def digit_val_def Let_def)

lemma py_int_range:
  assumes "list_all is_digit m" and "length m \<le> 3"
  shows "0 \<le> py_int m \<and> py_int m \<le> 999"
proof (cases m)
  case Nil
  then show ?thesis by (simp add: py_int_def)
next
  case m1: (Cons a m1)
  show ?thesis
  proof (cases m1)
    case Nil
    with m1 assms show ?thesis by (auto simp: py_int_def dest!: digit_val_range)
  next
    case m2: (Cons b m2)
    show ?thesis
    proof (cases m2)
      case Nil
      with m1 m2 assms show ?thesis by (auto simp: py_int_def dest!: digit_val_range)
    next
      case (Cons c m3)
      with m1 m2 assms have "m = [a, b, c]" by simp
      with assms show ?thesis by (auto simp: py_int_def dest!: digit_val_range)
    qed
  qed
qed

lemma findall_age_value:
  "m \<in> set (findall_age t) \<Longrightarrow> 0 \<le> py_int m \<and> py_int m \<le> 999"
  unfolding findall_age_def using findall_from_digits py_int_range by blast

lemmas text_eval =
  lower_def lower_char_def is_word_def is_digit_def at_boundary_def re_search_word_def
  match_age_at_def findall_age_def py_int_def digit_val_def char_of_def bit_0 bit_Suc

lemmas nlp_eval =
  extract_age_filter_def extract_gender_def gender_patterns_def extract_conditions_def
  nlp_conditions_def empty_age_filter_def process_query_def

section \<open>Gender detection\<close>

text \<open>
  Claim C5. Gender detection tests the female word-boundary patterns before the male
  ones and returns the first category one of whose patterns is found. A text in which
  the word "women" occurs is classified female, never male, and "men" is not found
  inside "women"; "men's health" is male; a text with both the word "male" and the
  word "female" is female; the result is always a value, never an error.
\<close>

theorem extract_gender_precedence:
  "extract_gender t =
     (if list_ex (\<lambda>w. re_search_word w (lower t)) [''female'', ''women'', ''woman'', ''feminine'']
      then Some ''female''
      else if list_ex (\<lambda>w. re_search_word w (lower t)) [''male'', ''men'', ''man'', ''masculine'']
      then Some ''male''
      else None)
   \<and> (re_search_word ''women'' (lower t) \<longrightarrow> extract_gender t = Some ''female'')
   \<and> (re_search_word ''male'' (lower t) \<and> re_search_word ''female'' (lower t)
        \<longrightarrow> extract_gender t = Some ''female'')
   \<and> extract_gender ''women'' = Some ''female''
   \<and> \<not> re_search_word ''men'' ''women''
   \<and> extract_gender ''men's health'' = Some ''male''
   \<and> extract_gender ''male and female patients'' = Some ''female''"
proof -
  have women: "extract_gender ''women'' = Some ''female''"
    by (simp add: nlp_eval text_eval)
  have nomen: "\<not> re_search_word ''men'' ''women''"
    by (simp add: text_eval)
  have mens: "extract_gender ''men's health'' = Some ''male''"
    by (simp add: nlp_eval text_eval)
  have both: "extract_gender ''male and female patients'' = Some ''female''"
    by (simp add: nlp_eval text_eval)
  show ?thesis
    using women nomen mens both by (simp add: extract_gender_def gender_patterns_def)
qed

theorem extract_gender_precedence_witness:
  "re_search_word ''women'' (lower ''Women and men'')
   \<and> re_search_word ''male'' (lower ''male or female'')
   \<and> re_search_word ''female'' (lower ''male or female'')
   \<and> extract_gender ''Women and men'' = Some ''female''
   \<and> extract_gender ''male or female'' = Some ''female''"
proof -
  have a: "re_search_word ''women'' (lower ''Women and men'')"
    by (simp add: text_eval)
  have b: "re_search_word ''male'' (lower ''male or female'')"
    by (simp add: text_eval)
  have c: "re_search_word ''female'' (lower ''male or female'')"
    by (simp add: text_eval)
  show ?thesis
    using a b c extract_gender_precedence [of "''Women and men''"]
      extract_gender_precedence [of "''male or female''"]
    by blast
qed

section \<open>Age extraction\<close>

text \<open>
  Claim C8, amended. When the text contains "over" (in any letter case) and
  \<open>\b\d{1,3}\b\<close> has a match in it (a run of one to three digits with no letter,
  digit or underscore next to it), the lower bound is the value of the first match,
  a number from 0 to 999, and no upper bound is set; this does not depend on
  "between" or "from".
\<close>

theorem extract_age_over_first_match:
  assumes "py_in ''over'' t \<or> py_in ''over'' (lower t)"
    and "findall_age t \<noteq> []"
  shows "extract_age_filter t =
           \<lparr>min_age = Some (py_int (findall_age t ! 0)), max_age = None\<rparr>
         \<and> 0 \<le> py_int (findall_age t ! 0) \<and> py_int (findall_age t ! 0) \<le> 999"
proof -
  from assms(1) have "py_in ''over'' (lower t)"
    using py_in_lower [of "''over''" t] by (auto simp: lower_over)
  then have "extract_age_filter t =
           \<lparr>min_age = Some (py_int (findall_age t ! 0)), max_age = None\<rparr>"
    using assms(2) by (simp add: extract_age_filter_def Let_def)
  moreover have "findall_age t ! 0 \<in> set (findall_age t)"
    using assms(2) by simp
  ultimately show ?thesis
    using findall_age_value by blast
qed

theorem extract_age_over_first_match_witness:
  "py_in ''over'' (lower ''Show me all diabetic patients Over 50'')
   \<and> findall_age ''Show me all diabetic patients Over 50'' = [''50'']
   \<and> extract_age_filter ''Show me all diabetic patients Over 50'' =
        \<lparr>min_age = Some 50, max_age = None\<rparr>"
proof -
  have a: "py_in ''over'' (lower ''Show me all diabetic patients Over 50'')"
    by (simp add: text_eval)
  have b: "findall_age ''Show me all diabetic patients Over 50'' = [''50'']"
    by (simp add: text_eval)
  have c: "py_int ''50'' = 50"
    by (simp add: text_eval)
  show ?thesis
    using a b c extract_age_over_first_match [of "''Show me all diabetic patients Over 50''"]
    by simp
qed

text \<open>
  The claim as stated fails for a number that is not delimited by word boundaries:
  "patients over 65yrs" contains "over" and the number 65, and neither "between" nor
  "from", but no lower bound is set.
\<close>

theorem extract_age_over_counterexample:
  "py_in ''over'' ''patients over 65yrs''
   \<and> py_in ''65'' ''patients over 65yrs''
   \<and> \<not> py_in ''between'' ''patients over 65yrs''
   \<and> \<not> py_in ''from'' ''patients over 65yrs''
   \<and> min_age (extract_age_filter ''patients over 65yrs'') = None"
  by (simp add: nlp_eval text_eval)

text \<open>
  Claim C2, amended. A number is a match of \<open>\b\d{1,3}\b\<close> in the text: a run of one
  to three digits with no letter, digit or underscore directly before or after it; the
  matches are taken from left to right (\<open>findall_age\<close>). The keyword classes are
  tested on the lower-cased text in the order of the source: with "over", "above" or
  "older than" only the lower bound is set, from the first match; otherwise with
  "under", "below" or "younger than" only the upper bound is set, from the first match;
  otherwise with "between" and at least two matches both bounds are set, from the first
  two matches. With no match the first two branches set nothing. So "patients over
  65yrs or 70" gets the lower bound 70, since 65 is followed by a letter and is no
  match.
\<close>

theorem extract_age_dispatch_order:
  "(let tl = lower t;
        nums = findall_age t;
        over = (py_in ''over'' tl \<or> py_in ''above'' tl \<or> py_in ''older than'' tl);
        under = (py_in ''under'' tl \<or> py_in ''below'' tl \<or> py_in ''younger than'' tl)
    in (over \<longrightarrow>
          extract_age_filter t =
            (if nums \<noteq> [] then \<lparr>min_age = Some (py_int (nums ! 0)), max_age = None\<rparr>
             else \<lparr>min_age = None, max_age = None\<rparr>))
     \<and> (\<not> over \<and> under \<longrightarrow>
          extract_age_filter t =
            (if nums \<noteq> [] then \<lparr>min_age = None, max_age = Some (py_int (nums ! 0))\<rparr>
             else \<lparr>min_age = None, max_age = None\<rparr>))
     \<and> (\<not> over \<and> \<not> under \<and> py_in ''between'' tl \<and> 2 \<le> length nums \<longrightarrow>
          extract_age_filter t =
            \<lparr>min_age = Some (py_int (nums ! 0)), max_age = Some (py_int (nums ! 1))\<rparr>))"
  by (simp add: extract_age_filter_def Let_def empty_age_filter_def)

theorem extract_age_dispatch_order_witness:
  "extract_age_filter ''overweight patients between 40 and 60'' =
     \<lparr>min_age = Some 40, max_age = None\<rparr>
   \<and> extract_age_filter ''patients under 30 or between 40 and 60'' =
     \<lparr>min_age = None, max_age = Some 30\<rparr>
   \<and> extract_age_filter ''List male cancer patients between 40 and 60'' =
     \<lparr>min_age = Some 40, max_age = Some 60\<rparr>"
proof -
  have a: "py_in ''over'' (lower ''overweight patients between 40 and 60'')"
    and b: "findall_age ''overweight patients between 40 and 60'' = [''40'', ''60'']"
    by (simp_all add: text_eval)
  have c: "\<not> py_in ''over'' (lower ''patients under 30 or between 40 and 60'')"
    "\<not> py_in ''above'' (lower ''patients under 30 or between 40 and 60'')"
    "\<not> py_in ''older than'' (lower ''patients under 30 or between 40 and 60'')"
    "py_in ''under'' (lower ''patients under 30 or between 40 and 60'')"
    "findall_age ''patients under 30 or between 40 and 60'' = [''30'', ''40'', ''60'']"
    by (simp_all add: text_eval)
  have d: "\<not> py_in ''over'' (lower ''List male cancer patients between 40 and 60'')"
    "\<not> py_in ''above'' (lower ''List male cancer patients between 40 and 60'')"
    "\<not> py_in ''older than'' (lower ''List male cancer patients between 40 and 60'')"
    "\<not> py_in ''under'' (lower ''List male cancer patients between 40 and 60'')"
    "\<not> py_in ''below'' (lower ''List male cancer patients between 40 and 60'')"
    "\<not> py_in ''younger than'' (lower ''List male cancer patients between 40 and 60'')"
    "py_in ''between'' (lower ''List male cancer patients between 40 and 60'')"
    "findall_age ''List male cancer patients between 40 and 60'' = [''40'', ''60'']"
    by (simp_all add: text_eval)
  have e: "py_int ''40'' = 40" "py_int ''60'' = 60" "py_int ''30'' = 30"
    by (simp_all add: text_eval)
  show ?thesis
    using extract_age_dispatch_order [of "''overweight patients between 40 and 60''"]
      extract_age_dispatch_order [of "''patients under 30 or between 40 and 60''"]
      extract_age_dispatch_order [of "''List male cancer patients between 40 and 60''"]
    by (simp add: Let_def a b c d e)
qed

text \<open>
  The order stated in the claim, "between" first, fails: "overweight patients between
  40 and 60" contains "between" and two numbers, but the "over" branch is taken and
  only the lower bound is set.
\<close>

theorem extract_age_between_first_counterexample:
  "py_in ''between'' (lower ''overweight patients between 40 and 60'')
   \<and> findall_age ''overweight patients between 40 and 60'' = [''40'', ''60'']
   \<and> extract_age_filter ''overweight patients between 40 and 60'' =
       \<lparr>min_age = Some 40, max_age = None\<rparr>
   \<and> max_age (extract_age_filter ''overweight patients between 40 and 60'') \<noteq> Some 60"
  by (simp add: nlp_eval text_eval)


section \<open>Facts about the random source\<close>

lemma bind_result_Inl [simp]: "bind_result (Inl e) f = Inl e"
  by (simp add: bind_result_def)

lemma bind_result_Inr [simp]: "bind_result (Inr v) f = f v"
  by (simp add: bind_result_def)

lemma bind_result_eq_Inr:
  "bind_result m f = Inr y \<longleftrightarrow> (\<exists>v. m = Inr v \<and> f v = Inr y)"
  by (cases m) simp_all

lemma randint_empty: "b < a \<Longrightarrow> randint a b r = Inl ValueError"
  by (simp add: randint_def)

lemma randint_ok:
  assumes "a \<le> b"
  shows "\<exists>x r'. randint a b r = Inr (x, r') \<and> a \<le> x \<and> x \<le> b"
proof -
  obtain n r' where n: "next_rand r = (n, r')" by (cases "next_rand r")
  have "0 < b - a + 1"
    using assms by simp
  then have "0 \<le> int n mod (b - a + 1)" and "int n mod (b - a + 1) < b - a + 1"
    by (rule pos_mod_sign, rule pos_mod_bound)
  then have "a \<le> a + int n mod (b - a + 1)" and "a + int n mod (b - a + 1) \<le> b"
    by linarith+
  then show ?thesis
    using assms n by (simp add: randint_def)
qed

lemma randint_range: "randint a b r = Inr (x, r') \<Longrightarrow> a \<le> x \<and> x \<le> b"
  using randint_ok [of a b r] by (cases "b < a") (auto simp: randint_empty)

lemma choice_ok:
  assumes "xs \<noteq> []"
  shows "\<exists>x r'. choice xs r = Inr (x, r') \<and> x \<in> set xs"
proof -
  obtain n r' where n: "next_rand r = (n, r')" by (cases "next_rand r")
  then show ?thesis
    using assms by (simp add: choice_def)
qed

lemma choice_member: "choice xs r = Inr (x, r') \<Longrightarrow> x \<in> set xs"
  using choice_ok [of xs r] by (cases "xs = []") (auto simp: choice_def)

section \<open>Condition records\<close>

text \<open>
  Claim C9. \<open>generate_condition\<close> returns a record for every patient id, condition key
  and random source. For a key outside the catalog the coding is the fixed triple with
  code R06.9; for a key of the catalog it is the catalog entry. The record refers to
  the patient it was made for.
\<close>

theorem generate_condition_total:
  "\<exists>c r'. generate_condition patient_id condition_name r = Inr (c, r')
     \<and> (condition_name \<notin> set (map fst condition_codes) \<longrightarrow>
          cond_coding c = unknown_condition_code
          \<and> coding_code (cond_coding c) = ''R06.9''
          \<and> coding_display (cond_coding c) = ''Unspecified abnormalities of breathing''
          \<and> coding_system (cond_coding c) = ''http://hl7.org/fhir/sid/icd-10-cm'')
     \<and> (\<forall>e. map_of condition_codes condition_name = Some e \<longrightarrow> cond_coding c = e)
     \<and> cond_text c = coding_display (cond_coding c)
     \<and> cond_subject_reference c = ''Patient/'' @ patient_id
     \<and> 30 \<le> cond_onset_days_ago c \<and> cond_onset_days_ago c \<le> 1825"
proof -
  obtain days r1 where d: "randint 30 1825 r = Inr (days, r1)" "30 \<le> days" "days \<le> 1825"
    using randint_ok [of 30 1825 r] by auto
  obtain h r2 where h: "uuid_hex8 r1 = (h, r2)" by (cases "uuid_hex8 r1")
  have none: "condition_name \<notin> set (map fst condition_codes) \<Longrightarrow>
      map_of condition_codes condition_name = None"
    by (simp add: map_of_eq_None_iff)
  show ?thesis
    using d h none
    by (auto simp: generate_condition_def Let_def unknown_condition_code_def icd10_def)
qed

theorem generate_condition_total_witness:
  "''copd'' \<notin> set (map fst condition_codes)
   \<and> map_of condition_codes ''asthma'' =
       Some \<lparr>coding_code = ''J45.9'', coding_display = ''Asthma, unspecified'',
             coding_system = ''http://hl7.org/fhir/sid/icd-10-cm''\<rparr>
   \<and> (\<exists>c r'. generate_condition ''patient-0000002a'' ''copd'' [7, 42] = Inr (c, r')
         \<and> coding_code (cond_coding c) = ''R06.9'')
   \<and> (\<exists>c r'. generate_condition ''patient-0000002a'' ''asthma'' [7, 42] = Inr (c, r')
         \<and> coding_code (cond_coding c) = ''J45.9'')"
proof -
  have a: "''copd'' \<notin> set (map fst condition_codes)"
    by (simp add: condition_codes_def)
  have b: "map_of condition_codes ''asthma'' =
       Some \<lparr>coding_code = ''J45.9'', coding_display = ''Asthma, unspecified'',
             coding_system = ''http://hl7.org/fhir/sid/icd-10-cm''\<rparr>"
    by (simp add: condition_codes_def icd10_def)
  show ?thesis
    using a b generate_condition_total [of "''patient-0000002a''" "''copd''" "[7, 42]"]
      generate_condition_total [of "''patient-0000002a''" "''asthma''" "[7, 42]"]
    by fastforce
qed

section \<open>Filtering\<close>

text \<open>
  Claim C7. Filtering a filtered list again with the same parameters changes nothing.
\<close>

theorem filter_patients_idempotent:
  "filter_patients (filter_patients pool ps) ps = filter_patients pool ps"
  by (auto simp: filter_patients_def Let_def split: option.splits intro!: filter_cong)


section \<open>Facts about bundles\<close>

lemma generate_condition_ref:
  "\<exists>c r'. generate_condition patient_id condition_name r = Inr (c, r')
     \<and> cond_subject_reference c = ''Patient/'' @ patient_id"
proof -
  obtain days r1 where d: "randint 30 1825 r = Inr (days, r1)"
    using randint_ok [of 30 1825 r] by auto
  obtain h r2 where h: "uuid_hex8 r1 = (h, r2)" by (cases "uuid_hex8 r1")
  show ?thesis
    using d h by (simp add: generate_condition_def Let_def)
qed

lemma conditions_of_patient_ok:
  "\<exists>cs r'. conditions_of_patient patient_id names r = Inr (cs, r')
     \<and> length cs = length names
     \<and> (\<forall>c\<in>set cs. cond_subject_reference c = ''Patient/'' @ patient_id)"
proof (induction names arbitrary: r)
  case Nil
  show ?case by simp
next
  case (Cons name names)
  obtain c r1 where c: "generate_condition patient_id name r = Inr (c, r1)"
    "cond_subject_reference c = ''Patient/'' @ patient_id"
    using generate_condition_ref by blast
  obtain cs r2 where cs: "conditions_of_patient patient_id names r1 = Inr (cs, r2)"
    "length cs = length names"
    "\<forall>c\<in>set cs. cond_subject_reference c = ''Patient/'' @ patient_id"
    using Cons.IH by blast
  show ?case
    using c cs by simp
qed

lemma conditions_of_patients_ok:
  "\<exists>cs r'. conditions_of_patients ms r = Inr (cs, r')
     \<and> length cs = sum_list (map (\<lambda>p. length (pt_conditions p)) ms)
     \<and> (\<forall>c\<in>set cs. \<exists>p\<in>set ms. cond_subject_reference c = ''Patient/'' @ pt_id p)"
proof (induction ms arbitrary: r)
  case Nil
  show ?case by simp
next
  case (Cons m ms)
  obtain cs r1 where cs: "conditions_of_patient (pt_id m) (pt_conditions m) r = Inr (cs, r1)"
    "length cs = length (pt_conditions m)"
    "\<forall>c\<in>set cs. cond_subject_reference c = ''Patient/'' @ pt_id m"
    using conditions_of_patient_ok by blast
  obtain ds r2 where ds: "conditions_of_patients ms r1 = Inr (ds, r2)"
    "length ds = sum_list (map (\<lambda>p. length (pt_conditions p)) ms)"
    "\<forall>c\<in>set ds. \<exists>p\<in>set ms. cond_subject_reference c = ''Patient/'' @ pt_id p"
    using Cons.IH by blast
  show ?case
    using cs ds by auto
qed

lemma bundle_patients_append:
  "bundle_patients (xs @ ys) = bundle_patients xs @ bundle_patients ys"
  by (induction xs) (simp_all split: resource.splits)

lemma bundle_conditions_append:
  "bundle_conditions (xs @ ys) = bundle_conditions xs @ bundle_conditions ys"
  by (induction xs) (simp_all split: resource.splits)

lemma bundle_patients_entries:
  "bundle_patients (map patient_entry ms) = ms"
  "bundle_patients (map condition_entry cs) = []"
  by (induction ms, simp_all add: patient_entry_def) (induction cs, simp_all add: condition_entry_def)

lemma bundle_conditions_entries:
  "bundle_conditions (map patient_entry ms) = []"
  "bundle_conditions (map condition_entry cs) = cs"
  by (induction ms, simp_all add: patient_entry_def) (induction cs, simp_all add: condition_entry_def)

text \<open>What \<open>bundle_of_pool\<close> returns, for every pool.\<close>

lemma bundle_of_pool_ok:
  "\<exists>b r'. bundle_of_pool pool ps r = Inr (b, r')
     \<and> bundle_patients (bundle_entry b) = slice_to (filter_patients pool ps) (limit ps)
     \<and> bundle_total b = length (bundle_patients (bundle_entry b))
     \<and> length (bundle_conditions (bundle_entry b)) =
         sum_list (map (\<lambda>p. length (pt_conditions p)) (bundle_patients (bundle_entry b)))
     \<and> length (bundle_entry b) =
         bundle_total b + length (bundle_conditions (bundle_entry b))
     \<and> (\<forall>c\<in>set (bundle_conditions (bundle_entry b)).
          \<exists>p\<in>set (bundle_patients (bundle_entry b)).
            cond_subject_reference c = ''Patient/'' @ pt_id p)"
proof -
  let ?ms = "slice_to (filter_patients pool ps) (limit ps)"
  obtain cs r1 where cs: "conditions_of_patients ?ms r = Inr (cs, r1)"
    "length cs = sum_list (map (\<lambda>p. length (pt_conditions p)) ?ms)"
    "\<forall>c\<in>set cs. \<exists>p\<in>set ?ms. cond_subject_reference c = ''Patient/'' @ pt_id p"
    using conditions_of_patients_ok by blast
  obtain h r2 where h: "uuid_hex8 r1 = (h, r2)" by (cases "uuid_hex8 r1")
  show ?thesis
    using cs h
    by (simp add: bundle_of_pool_def Let_def bundle_patients_append bundle_conditions_append
        bundle_patients_entries bundle_conditions_entries)
qed

lemma generate_response_pool:
  assumes "generate_response ps r = Inr (b, r')"
  shows "\<exists>n r1 pool r2. randint 20 50 r = Inr (n, r1) \<and> 20 \<le> n \<and> n \<le> 50
           \<and> generate_pool (nat n) ps r1 = Inr (pool, r2)
           \<and> bundle_of_pool pool ps r2 = Inr (b, r')"
proof (cases "randint 20 50 r")
  case (Inl e)
  with assms show ?thesis by (simp add: generate_response_def)
next
  case (Inr v)
  obtain n r1 where v: "v = (n, r1)" by (cases v)
  show ?thesis
  proof (cases "generate_pool (nat n) ps r1")
    case (Inl e)
    with assms Inr v show ?thesis by (simp add: generate_response_def)
  next
    case pool: (Inr w)
    obtain pool r2 where w: "w = (pool, r2)" by (cases w)
    have "bundle_of_pool pool ps r2 = Inr (b, r')"
      using assms Inr v pool w by (simp add: generate_response_def)
    moreover have "20 \<le> n \<and> n \<le> 50"
      using randint_range Inr v by blast
    ultimately show ?thesis
      using Inr v pool w by blast
  qed
qed

lemma slice_to_nonneg:
  "0 \<le> k \<Longrightarrow> slice_to xs k = take (min (nat k) (length xs)) xs"
  by (simp add: slice_to_def min_def)

section \<open>The assembled bundle\<close>

text \<open>
  Claim C4. For every pool and parameters with a limit that is not negative, the
  Patient entries of the bundle are the first min(limit, number of matches) elements
  of \<open>filter_patients pool ps\<close>, in pool order, and the declared total is the number
  of Patient entries, the Condition entries not counted. The bundle returned by
  \<open>generate_response\<close> is the one assembled from the pool it generated.
\<close>

theorem bundle_patients_first_matches:
  assumes "0 \<le> limit ps"
  shows "(\<exists>b r'. bundle_of_pool pool ps r = Inr (b, r')
           \<and> bundle_patients (bundle_entry b) =
               take (min (nat (limit ps)) (length (filter_patients pool ps)))
                    (filter_patients pool ps)
           \<and> bundle_total b = length (bundle_patients (bundle_entry b))
           \<and> length (bundle_entry b) =
               bundle_total b + length (bundle_conditions (bundle_entry b)))
       \<and> (\<forall>b' r''. generate_response ps r = Inr (b', r'') \<longrightarrow>
            (\<exists>n r1 pool' r2. randint 20 50 r = Inr (n, r1)
               \<and> generate_pool (nat n) ps r1 = Inr (pool', r2)
               \<and> bundle_patients (bundle_entry b') =
                   take (min (nat (limit ps)) (length (filter_patients pool' ps)))
                        (filter_patients pool' ps)
               \<and> bundle_total b' = length (bundle_patients (bundle_entry b'))))"
proof (intro conjI allI impI)
  show "\<exists>b r'. bundle_of_pool pool ps r = Inr (b, r')
           \<and> bundle_patients (bundle_entry b) =
               take (min (nat (limit ps)) (length (filter_patients pool ps)))
                    (filter_patients pool ps)
           \<and> bundle_total b = length (bundle_patients (bundle_entry b))
           \<and> length (bundle_entry b) =
               bundle_total b + length (bundle_conditions (bundle_entry b))"
    using bundle_of_pool_ok [of pool ps r] slice_to_nonneg [OF assms] by auto
next
  fix b' r''
  assume "generate_response ps r = Inr (b', r'')"
  then obtain n r1 pool' r2 where g: "randint 20 50 r = Inr (n, r1)"
    "generate_pool (nat n) ps r1 = Inr (pool', r2)"
    "bundle_of_pool pool' ps r2 = Inr (b', r'')"
    using generate_response_pool by blast
  have "bundle_patients (bundle_entry b') =
          take (min (nat (limit ps)) (length (filter_patients pool' ps)))
               (filter_patients pool' ps)
        \<and> bundle_total b' = length (bundle_patients (bundle_entry b'))"
    using bundle_of_pool_ok [of pool' ps r2] g(3) slice_to_nonneg [OF assms] by auto
  with g show "\<exists>n r1 pool' r2. randint 20 50 r = Inr (n, r1)
               \<and> generate_pool (nat n) ps r1 = Inr (pool', r2)
               \<and> bundle_patients (bundle_entry b') =
                   take (min (nat (limit ps)) (length (filter_patients pool' ps)))
                        (filter_patients pool' ps)
               \<and> bundle_total b' = length (bundle_patients (bundle_entry b'))"
    by blast
qed

text \<open>
  Claim C3. In every bundle that \<open>generate_response\<close> returns, and in every bundle
  assembled from any pool, the subject reference of every Condition entry names the
  id of a Patient entry of the same bundle, and there are as many Condition entries
  as the patients of the bundle have condition keys.
\<close>

theorem bundle_referential_closure:
  assumes "bundle_of_pool pool ps r = Inr (b, r') \<or> generate_response ps r = Inr (b, r')"
  shows "(\<forall>c\<in>set (bundle_conditions (bundle_entry b)).
            \<exists>p\<in>set (bundle_patients (bundle_entry b)).
              cond_subject_reference c = ''Patient/'' @ pt_id p)
       \<and> length (bundle_conditions (bundle_entry b)) =
           sum_list (map (\<lambda>p. length (pt_conditions p)) (bundle_patients (bundle_entry b)))"
proof -
  from assms obtain pool' r0 where "bundle_of_pool pool' ps r0 = Inr (b, r')"
    using generate_response_pool by blast
  then show ?thesis
    using bundle_of_pool_ok [of pool' ps r0] by auto
qed


section \<open>Facts about the generated pool\<close>

lemma bind_resultE:
  assumes "bind_result m f = Inr y"
  obtains v where "m = Inr v" and "f v = Inr y"
  using assms by (cases m) simp_all

lemma lookup_first_names:
  "lookup first_names g = Inr names \<Longrightarrow> (g = ''male'' \<or> g = ''female'') \<and> names \<noteq> []"
  by (auto simp: lookup_def first_names_def split: if_splits)

text \<open>What a patient that \<open>generate_patient\<close> returns looks like.\<close>

lemma generate_patient_result:
  assumes "generate_patient g_arg (Some af) (Some cs) r = Inr (p, r')"
  shows "(pt_gender p = ''male'' \<or> pt_gender p = ''female'')
       \<and> (case min_age af of None \<Rightarrow> 18 | Some lo \<Rightarrow> lo) \<le> pt_age p
       \<and> pt_age p \<le> (case max_age af of None \<Rightarrow> 85 | Some hi \<Rightarrow> hi)
       \<and> pt_conditions p = cs"
  using assms unfolding generate_patient_def
  by (auto elim!: bind_resultE dest!: randint_range lookup_first_names
      simp: truthy_age_filter_def split: option.splits if_splits prod.splits)

text \<open>The two draws that come first: the gender, then the age.\<close>

lemma gender_draw:
  "\<exists>g r1. (case g_arg of
              None \<Rightarrow> choice [''male'', ''female''] r
            | Some g \<Rightarrow> if g = [] then choice [''male'', ''female''] r else Inr (g, r)) = Inr (g, r1)
          \<and> (g_arg = None \<or> g_arg = Some [] \<longrightarrow> g = ''male'' \<or> g = ''female'')
          \<and> (g_arg \<noteq> None \<and> g_arg \<noteq> Some [] \<longrightarrow> g_arg = Some g)"
  using choice_ok [of "[''male'', ''female'']" r] by (cases g_arg) auto

lemma age_draw:
  "(if truthy_age_filter af
    then randint (case min_age af of None \<Rightarrow> 18 | Some lo \<Rightarrow> lo)
                 (case max_age af of None \<Rightarrow> 85 | Some hi \<Rightarrow> hi) r
    else randint 18 85 r) =
   randint (case min_age af of None \<Rightarrow> 18 | Some lo \<Rightarrow> lo)
           (case max_age af of None \<Rightarrow> 85 | Some hi \<Rightarrow> hi) r"
  by (simp add: truthy_age_filter_def split: option.splits)

text \<open>An empty age range makes \<open>generate_patient\<close> raise, whatever the other arguments.\<close>

lemma generate_patient_empty_range:
  assumes "(case max_age af of None \<Rightarrow> 85 | Some hi \<Rightarrow> hi)
             < (case min_age af of None \<Rightarrow> 18 | Some lo \<Rightarrow> lo)"
  shows "generate_patient g_arg (Some af) cs_arg r = Inl ValueError"
proof -
  obtain g r1 where g: "(case g_arg of
              None \<Rightarrow> choice [''male'', ''female''] r
            | Some g \<Rightarrow> if g = [] then choice [''male'', ''female''] r else Inr (g, r)) = Inr (g, r1)"
    using gender_draw by blast
  show ?thesis
    unfolding generate_patient_def g
    by (simp add: age_draw randint_empty [OF assms])
qed

text \<open>With a gender of the vocabulary and an age range that is not empty it returns.\<close>

lemma generate_patient_ok:
  assumes "g_arg = None \<or> g_arg = Some [] \<or> g_arg = Some ''male'' \<or> g_arg = Some ''female''"
    and "(case min_age af of None \<Rightarrow> 18 | Some lo \<Rightarrow> lo)
           \<le> (case max_age af of None \<Rightarrow> 85 | Some hi \<Rightarrow> hi)"
  shows "\<exists>p r'. generate_patient g_arg (Some af) cs_arg r = Inr (p, r')"
proof -
  obtain g r1 where g: "(case g_arg of
              None \<Rightarrow> choice [''male'', ''female''] r
            | Some g \<Rightarrow> if g = [] then choice [''male'', ''female''] r else Inr (g, r)) = Inr (g, r1)"
    and g_voc: "g = ''male'' \<or> g = ''female''"
    using gender_draw [where g_arg = g_arg and r = r] assms(1) by auto
  obtain age r2 where age:
    "randint (case min_age af of None \<Rightarrow> 18 | Some lo \<Rightarrow> lo)
             (case max_age af of None \<Rightarrow> 85 | Some hi \<Rightarrow> hi) r1 = Inr (age, r2)"
    using randint_ok [OF assms(2)] by blast
  obtain names where names: "lookup first_names g = Inr names" "names \<noteq> []"
    using g_voc by (auto simp: lookup_def first_names_def)
  obtain fn r3 where fn: "choice names r2 = Inr (fn, r3)"
    using choice_ok [OF names(2)] by blast
  obtain ln r4 where ln: "choice last_names r3 = Inr (ln, r4)"
    using choice_ok [of last_names r3] by (auto simp: last_names_def)
  obtain ad r5 where ad: "choice addresses r4 = Inr (ad, r5)"
    using choice_ok [of addresses r4] by (auto simp: addresses_def)
  obtain pid r6 where pid: "generate_patient_id r5 = (pid, r6)"
    by (cases "generate_patient_id r5")
  obtain ph1 r7 where ph1: "randint 100 999 r6 = Inr (ph1, r7)"
    using randint_ok [of 100 999 r6] by auto
  obtain ph2 r8 where ph2: "randint 100 999 r7 = Inr (ph2, r8)"
    using randint_ok [of 100 999 r7] by auto
  obtain ph3 r9 where ph3: "randint 1000 9999 r8 = Inr (ph3, r9)"
    using randint_ok [of 1000 9999 r8] by auto
  show ?thesis
    unfolding generate_patient_def g
    by (simp add: age_draw age names fn ln ad pid ph1 ph2 ph3)
qed

lemma sample_ok: "k \<le> length xs \<Longrightarrow> \<exists>ys r'. sample xs k r = Inr (ys, r')"
  by (cases "sample_loop xs k r") (simp add: sample_def)

lemma assign_conditions_ok: "\<exists>cs r'. assign_conditions req r = Inr (cs, r')"
proof (cases "req = []")
  case True
  obtain u r1 where u: "random_unit r = (u, r1)" by (cases "random_unit r")
  obtain c r2 where c: "choice (map fst condition_codes) r1 = Inr (c, r2)"
    using choice_ok [of "map fst condition_codes" r1] by (auto simp: condition_codes_def)
  show ?thesis
    using True u c by (simp add: assign_conditions_def)
next
  case False
  obtain u r1 where u: "random_unit r = (u, r1)" by (cases "random_unit r")
  obtain v r2 where v: "random_unit r1 = (v, r2)" by (cases "random_unit r1")
  obtain c r3 where c: "choice req r1 = Inr (c, r3)"
    using choice_ok [OF False] by blast
  obtain ys r4 where ys: "sample req (min 2 (length req)) r2 = Inr (ys, r4)"
    using sample_ok [of "min 2 (length req)" req r2] by auto
  show ?thesis
    using False u v c ys by (simp add: assign_conditions_def)
qed

lemma generate_pool_empty_range:
  assumes "(case max_age (age_filter ps) of None \<Rightarrow> 85 | Some hi \<Rightarrow> hi)
             < (case min_age (age_filter ps) of None \<Rightarrow> 18 | Some lo \<Rightarrow> lo)"
  shows "generate_pool (Suc n) ps r = Inl ValueError"
proof -
  obtain cs r1 where "assign_conditions (conditions ps) r = Inr (cs, r1)"
    using assign_conditions_ok by blast
  then show ?thesis
    by (simp add: generate_patient_empty_range [OF assms])
qed

lemma generate_pool_ok:
  assumes "gender ps = None \<or> gender ps = Some [] \<or> gender ps = Some ''male''
             \<or> gender ps = Some ''female''"
    and "(case min_age (age_filter ps) of None \<Rightarrow> 18 | Some lo \<Rightarrow> lo)
           \<le> (case max_age (age_filter ps) of None \<Rightarrow> 85 | Some hi \<Rightarrow> hi)"
  shows "\<exists>pool r'. generate_pool n ps r = Inr (pool, r')"
proof (induction n arbitrary: r)
  case 0
  show ?case by simp
next
  case (Suc n)
  obtain cs r1 where cs: "assign_conditions (conditions ps) r = Inr (cs, r1)"
    using assign_conditions_ok by blast
  obtain p r2 where p: "generate_patient (gender ps) (Some (age_filter ps)) (Some cs) r1 = Inr (p, r2)"
    using generate_patient_ok [OF assms] by blast
  obtain pool r3 where pool: "generate_pool n ps r2 = Inr (pool, r3)"
    using Suc.IH by blast
  show ?case
    using cs p pool by simp
qed

lemma generate_pool_result:
  assumes "generate_pool n ps r = Inr (pool, r')"
  shows "length pool = n
       \<and> (\<forall>p\<in>set pool.
            (pt_gender p = ''male'' \<or> pt_gender p = ''female'')
            \<and> (case min_age (age_filter ps) of None \<Rightarrow> 18 | Some lo \<Rightarrow> lo) \<le> pt_age p
            \<and> pt_age p \<le> (case max_age (age_filter ps) of None \<Rightarrow> 85 | Some hi \<Rightarrow> hi))"
  using assms
proof (induction n arbitrary: r pool r')
  case 0
  then show ?case by simp
next
  case (Suc n)
  from Suc.prems obtain cs r1 p r2 rest r3 where
    p: "generate_patient (gender ps) (Some (age_filter ps)) (Some cs) r1 = Inr (p, r2)"
    and rest: "generate_pool n ps r2 = Inr (rest, r3)"
    and pool: "pool = p # rest"
    by (auto elim!: bind_resultE)
  show ?case
    using generate_patient_result [OF p] Suc.IH [OF rest] pool by simp
qed

lemma generate_response_ok:
  assumes "gender ps = None \<or> gender ps = Some [] \<or> gender ps = Some ''male''
             \<or> gender ps = Some ''female''"
    and "(case min_age (age_filter ps) of None \<Rightarrow> 18 | Some lo \<Rightarrow> lo)
           \<le> (case max_age (age_filter ps) of None \<Rightarrow> 85 | Some hi \<Rightarrow> hi)"
  shows "\<exists>b r'. generate_response ps r = Inr (b, r')"
proof -
  obtain n r1 where n: "randint 20 50 r = Inr (n, r1)"
    using randint_ok [of 20 50 r] by auto
  obtain pool r2 where pool: "generate_pool (nat n) ps r1 = Inr (pool, r2)"
    using generate_pool_ok [OF assms] by blast
  obtain b r' where "bundle_of_pool pool ps r2 = Inr (b, r')"
    using bundle_of_pool_ok by blast
  with n pool show ?thesis
    by (simp add: generate_response_def)
qed

lemma generate_response_empty_range:
  assumes "(case max_age (age_filter ps) of None \<Rightarrow> 85 | Some hi \<Rightarrow> hi)
             < (case min_age (age_filter ps) of None \<Rightarrow> 18 | Some lo \<Rightarrow> lo)"
  shows "generate_response ps r = Inl ValueError"
proof -
  obtain n r1 where n: "randint 20 50 r = Inr (n, r1)" "20 \<le> n"
    using randint_ok [of 20 50 r] by auto
  then obtain m where m: "nat n = Suc m"
    by (cases "nat n") auto
  show ?thesis
    using n(1) m generate_pool_empty_range [OF assms]
    by (simp add: generate_response_def)
qed

lemma set_filter_patients: "set (filter_patients pool ps) \<subseteq> set pool"
  by (auto simp: filter_patients_def Let_def split: option.splits if_splits)

lemma set_slice_to: "set (slice_to xs k) \<subseteq> set xs"
  by (auto simp: slice_to_def dest: in_set_takeD)


section \<open>Queries used as examples\<close>

lemma process_query_empty:
  "fst (process_query '''') =
     \<lparr>conditions = [], age_filter = \<lparr>min_age = None, max_age = None\<rparr>, gender = None,
      limit = 10, query_type = ''patient_search''\<rparr>"
  by (simp add: nlp_eval text_eval) (simp add: Let_def)

lemma process_query_over_90:
  "fst (process_query ''patients over 90'') =
     \<lparr>conditions = [], age_filter = \<lparr>min_age = Some 90, max_age = None\<rparr>, gender = None,
      limit = 10, query_type = ''patient_search''\<rparr>"
  by (simp add: nlp_eval text_eval) (simp add: Let_def)

lemma process_query_between_5_15:
  "fst (process_query ''between 5 and 15'') =
     \<lparr>conditions = [], age_filter = \<lparr>min_age = Some 5, max_age = Some 15\<rparr>, gender = None,
      limit = 10, query_type = ''patient_search''\<rparr>"
  by (simp add: nlp_eval text_eval) (simp add: Let_def)

lemma process_query_female_hypertension:
  "fst (process_query ''Find female patients with hypertension'') =
     \<lparr>conditions = [''hypertension''], age_filter = \<lparr>min_age = None, max_age = None\<rparr>,
      gender = Some ''female'', limit = 10, query_type = ''patient_search''\<rparr>"
  by (simp add: nlp_eval text_eval) (simp add: Let_def)

section \<open>Gender counts\<close>

lemma gender_counts:
  "\<forall>p\<in>set ps. pt_gender p = ''male'' \<or> pt_gender p = ''female'' \<Longrightarrow>
   length (filter (\<lambda>p. pt_gender p = ''male'') ps)
     + length (filter (\<lambda>p. pt_gender p = ''female'') ps) = length ps"
  by (induction ps) auto

text \<open>
  Claim C6. For every bundle that \<open>generate_response\<close> returns, the male count and the
  female count of the gender distribution add up to the declared total: every
  generated patient is male or female, and the statistics count the Patient entries
  of the bundle.
\<close>

theorem gender_distribution_sums_to_total:
  assumes "generate_response ps r = Inr (b, r')"
  shows "sum_list (map snd (gender_distribution (get_summary_statistics b))) = bundle_total b
       \<and> map fst (gender_distribution (get_summary_statistics b)) = [''male'', ''female'']
       \<and> total_patients (get_summary_statistics b) = bundle_total b
       \<and> (\<forall>p\<in>set (bundle_patients (bundle_entry b)).
            pt_gender p = ''male'' \<or> pt_gender p = ''female'')"
proof -
  from assms obtain n r1 pool r2 where
    pool: "generate_pool (nat n) ps r1 = Inr (pool, r2)"
    and b: "bundle_of_pool pool ps r2 = Inr (b, r')"
    using generate_response_pool by blast
  have pats: "bundle_patients (bundle_entry b) = slice_to (filter_patients pool ps) (limit ps)"
    and tot: "bundle_total b = length (bundle_patients (bundle_entry b))"
    using bundle_of_pool_ok [of pool ps r2] b by auto
  have "set (bundle_patients (bundle_entry b)) \<subseteq> set pool"
    using pats set_slice_to set_filter_patients by fastforce
  then have voc: "\<forall>p\<in>set (bundle_patients (bundle_entry b)).
      pt_gender p = ''male'' \<or> pt_gender p = ''female''"
    using generate_pool_result [OF pool] by blast
  show ?thesis
    using gender_counts [OF voc] voc tot
    by (simp add: get_summary_statistics_def Let_def)
qed

section \<open>Age resolution\<close>

text \<open>
  Claim C1, at the input the claim names. For the text "patients over 90" the filter
  has the lower bound 90 and no upper bound, the age range is [90, 85], and
  \<open>generate_response\<close> raises ValueError on the first patient, for every random source.
\<close>

theorem generate_response_over_90_raises:
  "generate_response (fst (process_query ''patients over 90'')) r = Inl ValueError"
  by (rule generate_response_empty_range) (simp add: process_query_over_90)


section \<open>Age buckets\<close>

lemma age_bucket_counts:
  "length (filter (\<lambda>a. 18 \<le> a \<and> a \<le> 30) ages)
     + (length (filter (\<lambda>a. 31 \<le> a \<and> a \<le> 50) ages)
     + (length (filter (\<lambda>a. 51 \<le> a \<and> a \<le> 70) ages)
     + length (filter (\<lambda>a. 70 < a) ages)))
   = length (filter (\<lambda>a. (18::int) \<le> a) ages)"
  by (induction ages) auto

lemma filter_length_eq_iff: "length (filter P xs) = length xs \<longleftrightarrow> (\<forall>x\<in>set xs. P x)"
  by (metis filter_id_conv filter_True length_filter_less less_le_not_le)

lemma filter_patients_keeps_pool:
  assumes "gender ps = None" and "conditions ps = []"
    and "\<forall>p\<in>set pool.
           (case min_age (age_filter ps) of None \<Rightarrow> 18 | Some lo \<Rightarrow> lo) \<le> pt_age p
           \<and> pt_age p \<le> (case max_age (age_filter ps) of None \<Rightarrow> 85 | Some hi \<Rightarrow> hi)"
  shows "filter_patients pool ps = pool"
  using assms by (auto simp: filter_patients_def Let_def split: option.splits)

text \<open>
  The query "between 5 and 15" always yields a bundle of ten patients, all of them
  aged 5 to 15.
\<close>

lemma generate_response_between_5_15:
  "\<exists>b r'. generate_response (fst (process_query ''between 5 and 15'')) r = Inr (b, r')
     \<and> length (bundle_patients (bundle_entry b)) = 10
     \<and> (\<forall>p\<in>set (bundle_patients (bundle_entry b)). 5 \<le> pt_age p \<and> pt_age p \<le> 15)"
proof -
  let ?ps = "fst (process_query ''between 5 and 15'')"
  obtain b r' where b: "generate_response ?ps r = Inr (b, r')"
    using generate_response_ok [of ?ps r] by (auto simp: process_query_between_5_15)
  then obtain n r1 pool r2 where n: "20 \<le> n"
    and pool: "generate_pool (nat n) ?ps r1 = Inr (pool, r2)"
    and bp: "bundle_of_pool pool ?ps r2 = Inr (b, r')"
    using generate_response_pool by blast
  have len: "length pool = nat n"
    and ages: "\<forall>p\<in>set pool. 5 \<le> pt_age p \<and> pt_age p \<le> 15"
    using generate_pool_result [OF pool] by (simp_all add: process_query_between_5_15)
  have "filter_patients pool ?ps = pool"
    using ages by (intro filter_patients_keeps_pool) (simp_all add: process_query_between_5_15)
  then have pats: "bundle_patients (bundle_entry b) = take 10 pool"
    using bundle_of_pool_ok [of pool ?ps r2] bp
    by (auto simp: slice_to_def process_query_between_5_15)
  have "length (take 10 pool) = 10"
    using len n by simp
  moreover have "\<forall>p\<in>set (take 10 pool). 5 \<le> pt_age p \<and> pt_age p \<le> 15"
    using ages by (auto dest: in_set_takeD)
  ultimately show ?thesis
    using b pats by auto
qed

text \<open>
  Claim C10. The four age buckets count exactly the patients aged 18 or more. So a
  patient younger than 18 is in no bucket, and then the buckets add up to less than
  \<open>total_patients\<close>; they add up to \<open>total_patients\<close> exactly when every patient is at
  least 18. Such bundles occur: for the query "between 5 and 15" every run returns ten
  patients and all four buckets are empty.
\<close>

theorem age_buckets_count_adults_only:
  "(let st = get_summary_statistics b;
        ps = bundle_patients (bundle_entry b);
        buckets = sum_list (map snd (age_distribution st))
    in buckets = length (filter (\<lambda>p. 18 \<le> pt_age p) ps)
       \<and> buckets \<le> total_patients st
       \<and> ((\<exists>p\<in>set ps. pt_age p < 18) \<longrightarrow> buckets < total_patients st)
       \<and> (buckets = total_patients st \<longleftrightarrow> (\<forall>p\<in>set ps. 18 \<le> pt_age p)))
   \<and> (\<exists>b' r'. generate_response (fst (process_query ''between 5 and 15'')) r = Inr (b', r')
         \<and> total_patients (get_summary_statistics b') = 10
         \<and> sum_list (map snd (age_distribution (get_summary_statistics b'))) = 0)"
proof -
  have sum: "\<And>c. sum_list (map snd (age_distribution (get_summary_statistics c))) =
      length (filter (\<lambda>p. 18 \<le> pt_age p) (bundle_patients (bundle_entry c)))"
    using age_bucket_counts [of "map pt_age (bundle_patients (bundle_entry c))" for c]
    by (simp add: get_summary_statistics_def Let_def comp_def)
  have tot: "\<And>c. total_patients (get_summary_statistics c) =
      length (bundle_patients (bundle_entry c))"
    by (simp add: get_summary_statistics_def Let_def)
  let ?ps = "bundle_patients (bundle_entry b)"
  let ?k = "length (filter (\<lambda>p. 18 \<le> pt_age p) ?ps)"
  have le: "?k \<le> length ?ps"
    by simp
  have eq: "?k = length ?ps \<longleftrightarrow> (\<forall>p\<in>set ?ps. 18 \<le> pt_age p)"
    by (rule filter_length_eq_iff)
  have lt: "(\<exists>p\<in>set ?ps. pt_age p < 18) \<longrightarrow> ?k < length ?ps"
    using le eq by (metis le_neq_implies_less linorder_not_le)
  have first: "let st = get_summary_statistics b;
        ps = bundle_patients (bundle_entry b);
        buckets = sum_list (map snd (age_distribution st))
    in buckets = length (filter (\<lambda>p. 18 \<le> pt_age p) ps)
       \<and> buckets \<le> total_patients st
       \<and> ((\<exists>p\<in>set ps. pt_age p < 18) \<longrightarrow> buckets < total_patients st)
       \<and> (buckets = total_patients st \<longleftrightarrow> (\<forall>p\<in>set ps. 18 \<le> pt_age p))"
    unfolding Let_def sum tot using le eq lt by blast
  obtain b' r' where b': "generate_response (fst (process_query ''between 5 and 15'')) r = Inr (b', r')"
    and ten: "length (bundle_patients (bundle_entry b')) = 10"
    and young: "\<forall>p\<in>set (bundle_patients (bundle_entry b')). 5 \<le> pt_age p \<and> pt_age p \<le> 15"
    using generate_response_between_5_15 by blast
  have "filter (\<lambda>p. 18 \<le> pt_age p) (bundle_patients (bundle_entry b')) = []"
    using young by (auto simp: filter_empty_conv)
  then have "sum_list (map snd (age_distribution (get_summary_statistics b'))) = 0"
    by (simp add: sum)
  with b' ten first show ?thesis
    by (auto simp: tot)
qed

theorem age_buckets_count_adults_only_witness:
  "\<exists>b r'. generate_response (fst (process_query ''between 5 and 15'')) [] = Inr (b, r')
     \<and> (\<exists>p\<in>set (bundle_patients (bundle_entry b)). pt_age p < 18)
     \<and> sum_list (map snd (age_distribution (get_summary_statistics b)))
         < total_patients (get_summary_statistics b)"
proof -
  obtain b r' where b: "generate_response (fst (process_query ''between 5 and 15'')) [] = Inr (b, r')"
    and ten: "length (bundle_patients (bundle_entry b)) = 10"
    and young: "\<forall>p\<in>set (bundle_patients (bundle_entry b)). 5 \<le> pt_age p \<and> pt_age p \<le> 15"
    using generate_response_between_5_15 by blast
  from ten obtain p where p: "p \<in> set (bundle_patients (bundle_entry b))"
    by (cases "bundle_patients (bundle_entry b)") auto
  with young have "pt_age p < 18"
    by fastforce
  with p have ex: "\<exists>p\<in>set (bundle_patients (bundle_entry b)). pt_age p < 18"
    by blast
  show ?thesis
    using b ex age_buckets_count_adults_only [of b "[]"] by (auto simp: Let_def)
qed


section \<open>A run on the exhausted random source\<close>

text \<open>
  On the empty source every draw is 0, so every pool member is the same patient and
  the bundle can be computed. These runs are the concrete inputs of the examples below.
\<close>

lemmas rnd_eval =
  bind_result_def next_rand_def randint_def choice_def random_unit_def sample_def
  uuid_hex8_def hex_digit_def generate_patient_id_def lookup_def

lemmas sim_eval =
  generate_patient_def generate_condition_def assign_conditions_def truthy_age_filter_def
  first_names_def last_names_def addresses_def condition_codes_def icd10_def
  unknown_condition_code_def str_int_def str_nat.simps digit_char_def

lemma generate_pool_zero:
  assumes "assign_conditions (conditions ps) [] = Inr (cs, [])"
    and "generate_patient (gender ps) (Some (age_filter ps)) (Some cs) [] = Inr (p, [])"
  shows "generate_pool n ps [] = Inr (replicate n p, [])"
  by (induction n) (simp_all add: assms)

lemma conditions_of_patients_zero:
  assumes "conditions_of_patient (pt_id p) (pt_conditions p) [] = Inr (cs, [])"
  shows "conditions_of_patients (replicate n p) [] = Inr (concat (replicate n cs), [])"
  by (induction n) (simp_all add: assms)

lemma female_hypertension_zero:
  "\<exists>p c b.
     generate_pool 20 (fst (process_query ''Find female patients with hypertension'')) []
       = Inr (replicate 20 p, [])
     \<and> filter_patients (replicate 20 p)
         (fst (process_query ''Find female patients with hypertension'')) = replicate 20 p
     \<and> generate_response (fst (process_query ''Find female patients with hypertension'')) []
         = Inr (b, [])
     \<and> bundle_patients (bundle_entry b) = replicate 10 p
     \<and> bundle_conditions (bundle_entry b) = replicate 10 c
     \<and> bundle_total b = 10
     \<and> pt_id p = ''patient-00000000'' \<and> pt_gender p = ''female'' \<and> pt_age p = 18
     \<and> pt_conditions p = [''hypertension'']
     \<and> cond_subject_reference c = ''Patient/patient-00000000''
     \<and> coding_code (cond_coding c) = ''I10''"
proof -
  let ?ps = "fst (process_query ''Find female patients with hypertension'')"
  have a: "assign_conditions (conditions ?ps) [] = Inr ([''hypertension''], [])"
    by (simp add: process_query_female_hypertension assign_conditions_def rnd_eval)
  have "\<exists>p. generate_patient (gender ?ps) (Some (age_filter ?ps)) (Some [''hypertension'']) []
              = Inr (p, [])
            \<and> pt_id p = ''patient-00000000'' \<and> pt_gender p = ''female'' \<and> pt_age p = 18
            \<and> pt_conditions p = [''hypertension'']"
    by (simp add: process_query_female_hypertension sim_eval rnd_eval)
  then obtain p where p: "generate_patient (gender ?ps) (Some (age_filter ?ps))
        (Some [''hypertension'']) [] = Inr (p, [])"
    and pf: "pt_id p = ''patient-00000000''" "pt_gender p = ''female''" "pt_age p = 18"
      "pt_conditions p = [''hypertension'']"
    by blast
  have "\<exists>c. generate_condition ''patient-00000000'' ''hypertension'' [] = Inr (c, [])
            \<and> cond_subject_reference c = ''Patient/patient-00000000''
            \<and> coding_code (cond_coding c) = ''I10''"
    by (simp add: sim_eval rnd_eval)
  then obtain c where c: "generate_condition ''patient-00000000'' ''hypertension'' [] = Inr (c, [])"
    and cf: "cond_subject_reference c = ''Patient/patient-00000000''"
      "coding_code (cond_coding c) = ''I10''"
    by blast
  have pool: "generate_pool 20 ?ps [] = Inr (replicate 20 p, [])"
    using generate_pool_zero [OF a p] .
  have filt: "filter_patients (replicate 20 p) ?ps = replicate 20 p"
    by (simp add: filter_patients_def process_query_female_hypertension pf)
  have sl: "slice_to (replicate 20 p) 10 = replicate 10 p"
    by (simp add: slice_to_def)
  have "conditions_of_patient (pt_id p) (pt_conditions p) [] = Inr ([c], [])"
    by (simp add: pf c)
  then have conds: "conditions_of_patients (replicate 10 p) [] = Inr (replicate 10 c, [])"
    using conditions_of_patients_zero [of p "[c]" 10] by simp
  have n: "randint 20 50 [] = Inr (20, [])"
    by (simp add: randint_def next_rand_def)
  have h: "uuid_hex8 [] = (''00000000'', [])"
    by (simp add: uuid_hex8_def next_rand_def hex_digit_def)
  let ?b = "\<lparr>bundle_id = ''bundle-00000000'', bundle_type = ''searchset'', bundle_total = 10,
            bundle_entry = map patient_entry (replicate 10 p) @
                           map condition_entry (replicate 10 c)\<rparr>"
  have resp: "generate_response ?ps [] = Inr (?b, [])"
    using n pool filt sl conds h
    by (simp add: generate_response_def bundle_of_pool_def process_query_female_hypertension)
  have bp: "bundle_patients (bundle_entry ?b) = replicate 10 p"
    and bc: "bundle_conditions (bundle_entry ?b) = replicate 10 c"
    and bt: "bundle_total ?b = 10"
    by (simp_all only: fhir_bundle.simps bundle_patients_append bundle_conditions_append
        bundle_patients_entries bundle_conditions_entries append_Nil append_Nil2)
  show ?thesis
    using pool filt resp bp bc bt pf cf by blast
qed

theorem bundle_patients_first_matches_witness:
  "0 \<le> limit (fst (process_query ''Find female patients with hypertension''))
   \<and> (\<exists>b p.
         generate_response (fst (process_query ''Find female patients with hypertension'')) []
           = Inr (b, [])
         \<and> generate_pool 20 (fst (process_query ''Find female patients with hypertension'')) []
             = Inr (replicate 20 p, [])
         \<and> bundle_patients (bundle_entry b) =
             take (min (nat (limit (fst (process_query ''Find female patients with hypertension''))))
                       (length (filter_patients (replicate 20 p)
                          (fst (process_query ''Find female patients with hypertension'')))))
               (filter_patients (replicate 20 p)
                  (fst (process_query ''Find female patients with hypertension'')))
         \<and> bundle_patients (bundle_entry b) = replicate 10 p
         \<and> bundle_total b = length (bundle_patients (bundle_entry b))
         \<and> bundle_total b = 10)"
proof -
  let ?ps = "fst (process_query ''Find female patients with hypertension'')"
  have lim: "0 \<le> limit ?ps"
    by (simp add: process_query_female_hypertension)
  obtain p b where pool: "generate_pool 20 ?ps [] = Inr (replicate 20 p, [])"
    and resp: "generate_response ?ps [] = Inr (b, [])"
    and pats: "bundle_patients (bundle_entry b) = replicate 10 p"
    and tot: "bundle_total b = 10"
    using female_hypertension_zero by blast
  have n: "randint 20 50 [] = Inr (20, [])"
    by (simp add: randint_def next_rand_def)
  from bundle_patients_first_matches [OF lim, of "[]" "[]"] resp
  obtain k r1 pool' r2 where k: "randint 20 50 [] = Inr (k, r1)"
    and pool': "generate_pool (nat k) ?ps r1 = Inr (pool', r2)"
    and first: "bundle_patients (bundle_entry b) =
        take (min (nat (limit ?ps)) (length (filter_patients pool' ?ps)))
             (filter_patients pool' ?ps)"
    and len: "bundle_total b = length (bundle_patients (bundle_entry b))"
    by blast
  from k n have "k = 20" and "r1 = []"
    by simp_all
  with pool pool' have "pool' = replicate 20 p"
    by simp
  with first lim resp pool pats tot len show ?thesis
    by blast
qed

theorem bundle_referential_closure_witness:
  "\<exists>b p c.
     generate_response (fst (process_query ''Find female patients with hypertension'')) []
       = Inr (b, [])
     \<and> bundle_patients (bundle_entry b) = replicate 10 p
     \<and> bundle_conditions (bundle_entry b) = replicate 10 c
     \<and> pt_id p = ''patient-00000000''
     \<and> cond_subject_reference c = ''Patient/patient-00000000''
     \<and> (\<forall>c\<in>set (bundle_conditions (bundle_entry b)).
            \<exists>p\<in>set (bundle_patients (bundle_entry b)).
              cond_subject_reference c = ''Patient/'' @ pt_id p)
     \<and> length (bundle_conditions (bundle_entry b)) =
           sum_list (map (\<lambda>p. length (pt_conditions p)) (bundle_patients (bundle_entry b)))"
proof -
  let ?ps = "fst (process_query ''Find female patients with hypertension'')"
  obtain p c b where resp: "generate_response ?ps [] = Inr (b, [])"
    and pats: "bundle_patients (bundle_entry b) = replicate 10 p"
    and conds: "bundle_conditions (bundle_entry b) = replicate 10 c"
    and ids: "pt_id p = ''patient-00000000''"
      "cond_subject_reference c = ''Patient/patient-00000000''"
    using female_hypertension_zero by blast
  show ?thesis
    using resp pats conds ids bundle_referential_closure [of "[]" ?ps "[]" b "[]"]
    by blast
qed

theorem gender_distribution_sums_to_total_witness:
  "\<exists>b. generate_response (fst (process_query ''Find female patients with hypertension'')) []
         = Inr (b, [])
     \<and> gender_distribution (get_summary_statistics b) = [(''male'', 0), (''female'', 10)]
     \<and> bundle_total b = 10
     \<and> sum_list (map snd (gender_distribution (get_summary_statistics b))) = bundle_total b"
proof -
  let ?ps = "fst (process_query ''Find female patients with hypertension'')"
  obtain p b where resp: "generate_response ?ps [] = Inr (b, [])"
    and pats: "bundle_patients (bundle_entry b) = replicate 10 p"
    and tot: "bundle_total b = 10"
    and g: "pt_gender p = ''female''"
    using female_hypertension_zero by blast
  have "gender_distribution (get_summary_statistics b) = [(''male'', 0), (''female'', 10)]"
    by (simp add: get_summary_statistics_def Let_def pats g)
  then show ?thesis
    using resp tot gender_distribution_sums_to_total [OF resp] by blast
qed

end
